theory Spec2Isabelle
  imports Complex_Main
begin

section \<open>The dual-coloured coin viewer (DieStudyVis.py)\<close>

text \<open>
  A shallow embedding of the class \<^verbatim>\<open>DualColorCoinViewer\<close>. Every method that the
  properties below talk about is a function from the viewer's state (and the event it
  handles) to an outcome. Python floats are idealised as real numbers: there is no
  rounding and no infinity in this model, and the only NaN is the missing value of a
  table cell.
\<close>

subsection \<open>Values, errors and the toolkit's objects\<close>

text \<open>
  A cell of the loaded table: a number, a text, or the missing value (NaN) that the
  table library puts where the file has an empty field.
\<close>

datatype cell = Number real | Text string | Missing

definition is_text :: "cell \<Rightarrow> bool" where
  "is_text c = (case c of Text t \<Rightarrow> True | Number r \<Rightarrow> False | Missing \<Rightarrow> False)"

text \<open>
  A column read from a file is numeric when none of its fields is a text; its missing
  values are then floating-point NaNs.
\<close>

definition numeric_column :: "cell list \<Rightarrow> bool" where
  "numeric_column col = list_all (\<lambda>c. \<not> is_text c) col"

text \<open>
  The table \<^verbatim>\<open>self.df\<close>, column by column in the order of the file. The initial
  \<^verbatim>\<open>pd.DataFrame()\<close> is the empty list. Column names are distinct in a frame
  read from a file.
\<close>

type_synonym frame = "(string \<times> cell list) list"

datatype error = KeyError | IndexError | TypeError | AttributeError

text \<open>An RGB colour, as the palette library returns it.\<close>

type_synonym color = "real \<times> real \<times> real"

text \<open>
  What \<^verbatim>\<open>event.button\<close> can hold: nothing, a mouse button (\<^verbatim>\<open>LEFT\<close> is the one that
  compares equal to \<^verbatim>\<open>1\<close>), or the strings \<^verbatim>\<open>'up'\<close> and \<^verbatim>\<open>'down'\<close> of a scroll event.
\<close>

datatype button = NoButton | LEFT | MIDDLE | RIGHT | BACK | FORWARD | Wheel_up | Wheel_down

text \<open>A \<^verbatim>\<open>Wedge\<close> patch with the attributes the program sets.\<close>

record wedge =
  center :: "cell \<times> cell"
  radius :: real
  theta1 :: real
  theta2 :: real
  facecolor :: color
  edgecolor :: string
  picker :: bool
  gid :: nat

text \<open>
  The axes of the figure: its view limits (the viewport) and the patches added to it
  (the scene).
\<close>

record axes =
  xlim :: "real \<times> real"
  ylim :: "real \<times> real"
  ax_patches :: "wedge list"

text \<open>
  A mouse event. \<^verbatim>\<open>inaxes\<close> tells whether the pointer is over the axes of the figure
  (the figure never has more than one), \<^verbatim>\<open>xdata\<close> and \<^verbatim>\<open>ydata\<close> are the data
  coordinates of the pointer, or \<^verbatim>\<open>None\<close>.
\<close>

record mouse_event =
  button :: button
  inaxes :: bool
  xdata :: "real option"
  ydata :: "real option"

record pick_event =
  mouseevent :: mouse_event
  artist :: wedge

text \<open>The content of a \<^verbatim>\<open>Coin Info\<close> dialog: the three cells it prints.\<close>

datatype message = Coin_info cell cell cell

subsection \<open>The state of the viewer\<close>

text \<open>
  The attributes of \<^verbatim>\<open>self\<close> that the methods read or write. \<^verbatim>\<open>ax\<close> is
  \<^verbatim>\<open>self.canvas.figure.axes[0]\<close>, absent while the figure is empty. The three
  \<^verbatim>\<open>_start\<close> attributes do not exist before the first drag starts. \<^verbatim>\<open>_is_dragging\<close>
  is only ever read through \<^verbatim>\<open>getattr(self, "_is_dragging", False)\<close>, so a missing
  attribute and \<^verbatim>\<open>False\<close> are the same value here. \<^verbatim>\<open>connected\<close> records that the five
  handlers are registered with the canvas, \<^verbatim>\<open>messages\<close> the dialogs shown so far.
\<close>

record viewer =
  df :: frame
  x_column :: string
  y_column :: string
  obv_column :: string
  rev_column :: string
  patches :: "(wedge \<times> wedge) list"
  ax :: "axes option"
  connected :: bool
  suppress_next_drag :: bool
  is_dragging :: bool
  drag_start :: "(real option \<times> real option) option"
  xlim_start :: "(real \<times> real) option"
  ylim_start :: "(real \<times> real) option"
  messages :: "message list"

text \<open>
  A method either returns, leaving a state, or raises, leaving the state it had reached
  when the exception left it.
\<close>

type_synonym outcome = "(error \<times> viewer) + viewer"

definition state_after :: "outcome \<Rightarrow> viewer" where
  "state_after out = (case out of Inl (err, s) \<Rightarrow> s | Inr s \<Rightarrow> s)"

subsection \<open>Zooming with the wheel\<close>

definition base_scale :: real where
  "base_scale = 12 / 10"

text \<open>The \<^verbatim>\<open>if\<close>/\<^verbatim>\<open>elif\<close>/\<^verbatim>\<open>else\<close> chain of \<^verbatim>\<open>on_scroll\<close>.\<close>

definition scale_factor :: "button \<Rightarrow> real" where
  "scale_factor b =
     (if b = Wheel_up then 1 / base_scale
      else if b = Wheel_down then base_scale
      else 1)"

definition on_scroll :: "viewer \<Rightarrow> mouse_event \<Rightarrow> outcome" where
  "on_scroll s event =
     (case ax s of
        None \<Rightarrow> Inl (IndexError, s)
      | Some a \<Rightarrow>
          (case xdata event of
             None \<Rightarrow> Inr s
           | Some xd \<Rightarrow>
               (case ydata event of
                  None \<Rightarrow> Inr s
                | Some yd \<Rightarrow>
                    (let x_left = fst (xlim a); x_right = snd (xlim a);
                         y_bottom = fst (ylim a); y_top = snd (ylim a);
                         x_range = x_right - x_left;
                         y_range = y_top - y_bottom;
                         sf = scale_factor (button event);
                         new_xlim = (xd - x_range * sf / 2, xd + x_range * sf / 2);
                         new_ylim = (yd - y_range * sf / 2, yd + y_range * sf / 2)
                     in Inr (s\<lparr>ax := Some (a\<lparr>xlim := new_xlim, ylim := new_ylim\<rparr>)\<rparr>)))))"

subsection \<open>Dragging\<close>

text \<open>
  \<^verbatim>\<open>on_press\<close>. An event over the axes cannot reach a figure without axes; the model
  gives that combination the error Python reports for an attribute of \<^verbatim>\<open>None\<close>.
\<close>

definition on_press :: "viewer \<Rightarrow> mouse_event \<Rightarrow> outcome" where
  "on_press s event =
     (if suppress_next_drag s then Inr (s\<lparr>suppress_next_drag := False\<rparr>)
      else if button event = LEFT \<and> inaxes event then
        (case ax s of
           None \<Rightarrow> Inl (AttributeError, s)
         | Some a \<Rightarrow>
             Inr (s\<lparr>is_dragging := True,
                    drag_start := Some (xdata event, ydata event),
                    xlim_start := Some (xlim a),
                    ylim_start := Some (ylim a)\<rparr>))
      else Inr s)"

text \<open>
  Python's truth value of \<^verbatim>\<open>event.xdata\<close>: \<^verbatim>\<open>None\<close> is false, and so is the number
  zero.
\<close>

definition truthy :: "real option \<Rightarrow> bool" where
  "truthy v = (case v of None \<Rightarrow> False | Some r \<Rightarrow> r \<noteq> 0)"

text \<open>Subtraction of two values that may be \<^verbatim>\<open>None\<close>.\<close>

definition py_sub :: "real option \<Rightarrow> real option \<Rightarrow> error + real" where
  "py_sub a b =
     (case a of
        None \<Rightarrow> Inl TypeError
      | Some x \<Rightarrow> (case b of None \<Rightarrow> Inl TypeError | Some y \<Rightarrow> Inr (x - y)))"

definition on_motion :: "viewer \<Rightarrow> mouse_event \<Rightarrow> outcome" where
  "on_motion s event =
     (if is_dragging s \<and> inaxes event \<and> truthy (xdata event) \<and> truthy (ydata event) then
        (case drag_start s of
           None \<Rightarrow> Inl (AttributeError, s)
         | Some start \<Rightarrow>
             (case py_sub (xdata event) (fst start) of
                Inl err \<Rightarrow> Inl (err, s)
              | Inr dx \<Rightarrow>
                  (case py_sub (ydata event) (snd start) of
                     Inl err \<Rightarrow> Inl (err, s)
                   | Inr dy \<Rightarrow>
                       (case xlim_start s of
                          None \<Rightarrow> Inl (AttributeError, s)
                        | Some xs \<Rightarrow>
                            (case ylim_start s of
                               None \<Rightarrow> Inl (AttributeError, s)
                             | Some ys \<Rightarrow>
                                 (case ax s of
                                    None \<Rightarrow> Inl (AttributeError, s)
                                  | Some a \<Rightarrow>
                                      Inr (s\<lparr>ax := Some (a\<lparr>
                                             xlim := (fst xs - dx, snd xs - dx),
                                             ylim := (fst ys - dy, snd ys - dy)\<rparr>)\<rparr>)))))))
      else Inr s)"

definition on_release :: "viewer \<Rightarrow> mouse_event \<Rightarrow> outcome" where
  "on_release s event = Inr (s\<lparr>is_dragging := False\<rparr>)"

subsection \<open>Sequences of events\<close>

text \<open>
  The handlers run one after the other, in the order of the events. A run of motion
  events, and a whole drag: one press, the motion events, one release.
\<close>

fun motions :: "viewer \<Rightarrow> mouse_event list \<Rightarrow> outcome" where
  "motions s [] = Inr s"
| "motions s (event # events) =
     (case on_motion s event of Inl x \<Rightarrow> Inl x | Inr s' \<Rightarrow> motions s' events)"

definition drag :: "viewer \<Rightarrow> mouse_event \<Rightarrow> mouse_event list \<Rightarrow> mouse_event \<Rightarrow> outcome" where
  "drag s press moves release =
     (case on_press s press of
        Inl x \<Rightarrow> Inl x
      | Inr s1 \<Rightarrow>
          (case motions s1 moves of
             Inl x \<Rightarrow> Inl x
           | Inr s2 \<Rightarrow> on_release s2 release))"

subsection \<open>Picking a coin\<close>

text \<open>
  \<^verbatim>\<open>self.df.iloc[ind]\<close>: the row at a position, as the cells of the columns under their
  names; \<^verbatim>\<open>row[name]\<close>: one cell of it.
\<close>

definition nrows :: "frame \<Rightarrow> nat" where
  "nrows d = (case d of [] \<Rightarrow> 0 | (c, vs) # rest \<Rightarrow> length vs)"


definition iloc :: "frame \<Rightarrow> nat \<Rightarrow> error + (string \<times> cell) list" where
  "iloc d i =
     (if i < nrows d then Inr (map (\<lambda>(c, vs). (c, vs ! i)) d) else Inl IndexError)"

definition row_getitem :: "(string \<times> cell) list \<Rightarrow> string \<Rightarrow> error + cell" where
  "row_getitem row name = (case map_of row name of None \<Rightarrow> Inl KeyError | Some v \<Rightarrow> Inr v)"

definition on_click :: "viewer \<Rightarrow> pick_event \<Rightarrow> outcome" where
  "on_click s event =
     (if button (mouseevent event) \<noteq> LEFT then Inr s
      else
        (let s1 = s\<lparr>suppress_next_drag := True\<rparr>;
             ind = gid (artist event)
         in case iloc (df s1) ind of
              Inl err \<Rightarrow> Inl (err, s1)
            | Inr row \<Rightarrow>
                (case row_getitem row ''name'' of
                   Inl err \<Rightarrow> Inl (err, s1)
                 | Inr n \<Rightarrow>
                     (case row_getitem row ''obverse_group'' of
                        Inl err \<Rightarrow> Inl (err, s1)
                      | Inr og \<Rightarrow>
                          (case row_getitem row ''reverse_group'' of
                             Inl err \<Rightarrow> Inl (err, s1)
                           | Inr rg \<Rightarrow>
                               Inr (s1\<lparr>messages := messages s1 @ [Coin_info n og rg]\<rparr>))))))"

subsection \<open>Plotting the coins\<close>

text \<open>\<^verbatim>\<open>self.df[col]\<close>: the cells of a column.\<close>

definition getitem :: "frame \<Rightarrow> string \<Rightarrow> error + cell list" where
  "getitem d col = (case map_of d col of None \<Rightarrow> Inl KeyError | Some vs \<Rightarrow> Inr vs)"

text \<open>
  \<^verbatim>\<open>Series.unique()\<close> of the table library: the distinct values in order of
  appearance.
\<close>

fun unique_from :: "'a list \<Rightarrow> 'a list \<Rightarrow> 'a list" where
  "unique_from seen [] = []"
| "unique_from seen (v # vs) =
     (if v \<in> set seen then unique_from seen vs else v # unique_from (v # seen) vs)"

definition unique :: "'a list \<Rightarrow> 'a list" where
  "unique vs = unique_from [] vs"

text \<open>
  The dictionary comprehension \<^verbatim>\<open>{val: palette[i] for i, val in enumerate(uniq)}\<close>:
  the pairs are stored one after the other, and an index beyond the palette raises.
\<close>

fun dict_of :: "(nat \<times> 'a) list \<Rightarrow> color list \<Rightarrow> ('a \<rightharpoonup> color) \<Rightarrow> error + ('a \<rightharpoonup> color)" where
  "dict_of [] palette m = Inr m"
| "dict_of ((i, val) # rest) palette m =
     (if i < length palette then dict_of rest palette (m(val \<mapsto> palette ! i))
      else Inl IndexError)"

definition color_dict :: "color list \<Rightarrow> 'a list \<Rightarrow> error + ('a \<rightharpoonup> color)" where
  "color_dict palette uniq = dict_of (enumerate 0 uniq) palette Map.empty"

text \<open>
  \<^verbatim>\<open>obv_map[o]\<close>, for a value \<open>o\<close> read from the column the dictionary was built from.
  A missing value of a numeric column is a new NaN object every time the column is read,
  and a NaN is equal to nothing: the key that \<^verbatim>\<open>unique()\<close> has stored is not found.
  In a text column the missing value is one shared object and is found like any key.
\<close>

definition dict_getitem :: "bool \<Rightarrow> (cell \<rightharpoonup> color) \<Rightarrow> cell \<Rightarrow> error + color" where
  "dict_getitem numeric m k =
     (if numeric \<and> k = Missing then Inl KeyError
      else (case m k of None \<Rightarrow> Inl KeyError | Some c \<Rightarrow> Inr c))"

text \<open>The attributes of a half disc that has been built, with the gid it was given.\<close>

definition half_disc :: "nat \<Rightarrow> cell \<times> cell \<Rightarrow> real \<Rightarrow> real \<Rightarrow> color \<Rightarrow> wedge" where
  "half_disc i c t1 t2 fc =
     \<lparr>center = c, radius = 1 / 10, theta1 = t1, theta2 = t2,
      facecolor = fc, edgecolor = ''black'', picker = True, gid = i\<rparr>"

text \<open>
  The constructor \<^verbatim>\<open>Wedge(center=(xi, yi), r=radius, theta1=..., theta2=..., ...)\<close> of the
  plotting library, followed by \<^verbatim>\<open>set_gid(i)\<close>. The constructor computes the outline
  of the wedge from the centre, and raises \<^verbatim>\<open>TypeError\<close> when a coordinate is a
  text. A NaN coordinate is a number to it: the wedge is built and nothing is drawn.
\<close>

definition Wedge :: "cell \<times> cell \<Rightarrow> real \<Rightarrow> real \<Rightarrow> color \<Rightarrow> nat \<Rightarrow> error + wedge" where
  "Wedge c t1 t2 fc i =
     (if is_text (fst c) \<or> is_text (snd c) then Inl TypeError
      else Inr (half_disc i c t1 t2 fc))"

text \<open>The two halves of the coin of row \<open>i\<close>.\<close>

definition wedge1 :: "nat \<Rightarrow> cell \<Rightarrow> cell \<Rightarrow> color \<Rightarrow> error + wedge" where
  "wedge1 i xi yi c = Wedge (xi, yi) 90 270 c i"

definition wedge2 :: "nat \<Rightarrow> cell \<Rightarrow> cell \<Rightarrow> color \<Rightarrow> error + wedge" where
  "wedge2 i xi yi c = Wedge (xi, yi) 270 90 c i"

text \<open>
  The loop over the rows. It works on the new axes and on \<^verbatim>\<open>self.patches\<close>; an
  exception leaves both as they are at that moment. In each row the colour is looked up
  before the wedge is built, and the left wedge is on the axes before the right colour is
  looked up. \<open>obv_numeric\<close> and \<open>rev_numeric\<close> tell whether the two category columns are
  numeric.
\<close>

type_synonym scene = "axes \<times> (wedge \<times> wedge) list"

fun add_coins ::
  "(nat \<times> cell \<times> cell \<times> cell \<times> cell) list \<Rightarrow> bool \<Rightarrow> (cell \<rightharpoonup> color) \<Rightarrow>
   bool \<Rightarrow> (cell \<rightharpoonup> color) \<Rightarrow> scene \<Rightarrow> (error \<times> scene) + scene" where
  "add_coins [] obv_numeric obv_map rev_numeric rev_map sc = Inr sc"
| "add_coins ((i, xi, yi, ob, rv) # rest) obv_numeric obv_map rev_numeric rev_map (a, ps) =
     (case dict_getitem obv_numeric obv_map ob of
        Inl err \<Rightarrow> Inl (err, (a, ps))
      | Inr co \<Rightarrow>
          (case wedge1 i xi yi co of
             Inl err \<Rightarrow> Inl (err, (a, ps))
           | Inr w1 \<Rightarrow>
               (let a1 = a\<lparr>ax_patches := ax_patches a @ [w1]\<rparr>
                in case dict_getitem rev_numeric rev_map rv of
                     Inl err \<Rightarrow> Inl (err, (a1, ps))
                   | Inr cr \<Rightarrow>
                       (case wedge2 i xi yi cr of
                          Inl err \<Rightarrow> Inl (err, (a1, ps))
                        | Inr w2 \<Rightarrow>
                            (let a2 = a1\<lparr>ax_patches := ax_patches a1 @ [w2]\<rparr>
                             in add_coins rest obv_numeric obv_map rev_numeric rev_map
                                  (a2, ps @ [(w1, w2)]))))))"

text \<open>The axes \<^verbatim>\<open>add_subplot(111)\<close> creates on the cleared figure.\<close>

definition new_axes :: axes where
  "new_axes = \<lparr>xlim = (0, 1), ylim = (0, 1), ax_patches = []\<rparr>"

text \<open>
  \<^verbatim>\<open>plot_coins\<close>. The palette library and the autoscaling of the plotting library are
  parameters: \<open>color_palette name n\<close> is the palette of that name with \<open>n\<close> colours,
  \<open>autoscale ws\<close> the view limits that \<^verbatim>\<open>relim\<close> and \<^verbatim>\<open>autoscale_view\<close> choose
  for the patches \<open>ws\<close>.
\<close>

definition plot_coins ::
  "(string \<Rightarrow> nat \<Rightarrow> color list) \<Rightarrow> (wedge list \<Rightarrow> (real \<times> real) \<times> (real \<times> real)) \<Rightarrow>
   viewer \<Rightarrow> outcome" where
  "plot_coins color_palette autoscale s =
     (let x_col = x_column s; y_col = y_column s;
          obv_col = obv_column s; rev_col = rev_column s
      in if \<not> list_all (\<lambda>c. c \<noteq> []) [x_col, y_col, obv_col, rev_col] then Inr s
         else
           (case getitem (df s) x_col of Inl err \<Rightarrow> Inl (err, s) | Inr x \<Rightarrow>
           (case getitem (df s) y_col of Inl err \<Rightarrow> Inl (err, s) | Inr y \<Rightarrow>
           (case getitem (df s) obv_col of Inl err \<Rightarrow> Inl (err, s) | Inr obv \<Rightarrow>
           (case getitem (df s) rev_col of Inl err \<Rightarrow> Inl (err, s) | Inr rev' \<Rightarrow>
             (let s1 = s\<lparr>ax := Some new_axes\<rparr>;
                  obv_unique = unique obv;
                  rev_unique = unique rev';
                  obv_palette = color_palette ''Set1'' (length obv_unique);
                  rev_palette = color_palette ''Set2'' (length rev_unique)
              in case color_dict obv_palette obv_unique of
                   Inl err \<Rightarrow> Inl (err, s1)
                 | Inr obv_map \<Rightarrow>
                     (case color_dict rev_palette rev_unique of
                        Inl err \<Rightarrow> Inl (err, s1)
                      | Inr rev_map \<Rightarrow>
                          (case add_coins (enumerate 0 (zip x (zip y (zip obv rev'))))
                                  (numeric_column obv) obv_map
                                  (numeric_column rev') rev_map (new_axes, []) of
                             Inl (err, (a, ps)) \<Rightarrow>
                               Inl (err, s1\<lparr>patches := ps, ax := Some a\<rparr>)
                           | Inr (a, ps) \<Rightarrow>
                               (let lims = autoscale (ax_patches a)
                                in Inr (s1\<lparr>patches := ps,
                                          connected := True,
                                          ax := Some (a\<lparr>xlim := fst lims,
                                                         ylim := snd lims\<rparr>)\<rparr>))))))))))"

text \<open>The state \<^verbatim>\<open>__init__\<close> leaves: an empty table, nothing selected, an empty figure.\<close>

definition init :: viewer where
  "init =
     \<lparr>df = [], x_column = [], y_column = [], obv_column = [], rev_column = [],
      patches = [], ax = None, connected = False, suppress_next_drag = False,
      is_dragging = False, drag_start = None, xlim_start = None, ylim_start = None,
      messages = []\<rparr>"

subsection \<open>The zoom of the specification\<close>

text \<open>
  The specification's \<^verbatim>\<open>zoomAround(cursorDataX, cursorDataY, factor)\<close>, in its own
  words: each bound \<open>b\<close> of the rectangle becomes \<open>cursor - (cursor - b) * factor\<close>.
  It is stated here to be compared with what \<^verbatim>\<open>on_scroll\<close> computes.
\<close>

definition spec_zoomAround :: "real \<Rightarrow> real \<Rightarrow> real \<Rightarrow> axes \<Rightarrow> axes" where
  "spec_zoomAround cx cy f a =
     a\<lparr>xlim := (cx - (cx - fst (xlim a)) * f, cx - (cx - snd (xlim a)) * f),
       ylim := (cy - (cy - fst (ylim a)) * f, cy - (cy - snd (ylim a)) * f)\<rparr>"

subsection \<open>A sample session\<close>

text \<open>
  A table of three coins, with obverse categories A, B, A and reverse categories X, Y, X,
  two palettes that repeat three colours each, and limits \<open>[0,10] \<times> [0,10]\<close> for the autoscaling.
\<close>

definition coins :: frame where
  "coins =
     [(''x'', [Number 2, Number 5, Number 8]),
      (''y'', [Number 2, Number 5, Number 3]),
      (''obv'', [Text ''A'', Text ''B'', Text ''A'']),
      (''rev'', [Text ''X'', Text ''Y'', Text ''X'']),
      (''name'', [Text ''c1'', Text ''c2'', Text ''c3'']),
      (''obverse_group'', [Text ''A'', Text ''B'', Text ''A'']),
      (''reverse_group'', [Text ''X'', Text ''Y'', Text ''X''])]"

definition red :: color where "red = (1, 0, 0)"
definition blue :: color where "blue = (0, 0, 1)"
definition green :: color where "green = (0, 1, 0)"
definition orange :: color where "orange = (1, 1 / 2, 0)"
definition purple :: color where "purple = (1 / 2, 0, 1 / 2)"
definition grey :: color where "grey = (1 / 2, 1 / 2, 1 / 2)"

definition sample_palette :: "string \<Rightarrow> nat \<Rightarrow> color list" where
  "sample_palette name n =
     map (\<lambda>i. (if name = ''Set1'' then [red, blue, purple] else [green, orange, grey]) ! (i mod 3))
       [0..<n]"

definition sample_autoscale :: "wedge list \<Rightarrow> (real \<times> real) \<times> (real \<times> real)" where
  "sample_autoscale ws = ((0, 10), (0, 10))"

text \<open>The table loaded and the four columns selected, before the first plot.\<close>

definition configured :: viewer where
  "configured =
     init\<lparr>df := coins, x_column := ''x'', y_column := ''y'',
          obv_column := ''obv'', rev_column := ''rev''\<rparr>"

definition sample_wedges :: "wedge list" where
  "sample_wedges =
     [half_disc 0 (Number 2, Number 2) 90 270 red, half_disc 0 (Number 2, Number 2) 270 90 green,
      half_disc 1 (Number 5, Number 5) 90 270 blue, half_disc 1 (Number 5, Number 5) 270 90 orange,
      half_disc 2 (Number 8, Number 3) 90 270 red, half_disc 2 (Number 8, Number 3) 270 90 green]"

definition square10 :: axes where
  "square10 = \<lparr>xlim = (0, 10), ylim = (0, 10), ax_patches = sample_wedges\<rparr>"

text \<open>The state after the plot of the sample (see \<open>plot_coins_sample\<close> below).\<close>

definition plotted :: viewer where
  "plotted =
     configured\<lparr>
       patches :=
         [(half_disc 0 (Number 2, Number 2) 90 270 red, half_disc 0 (Number 2, Number 2) 270 90 green),
          (half_disc 1 (Number 5, Number 5) 90 270 blue, half_disc 1 (Number 5, Number 5) 270 90 orange),
          (half_disc 2 (Number 8, Number 3) 90 270 red, half_disc 2 (Number 8, Number 3) 270 90 green)],
       ax := Some square10,
       connected := True\<rparr>"

text \<open>An event with the pointer over the axes, at the data point \<open>(x, y)\<close>.\<close>

definition pointer :: "button \<Rightarrow> real \<Rightarrow> real \<Rightarrow> mouse_event" where
  "pointer b x y = \<lparr>button = b, inaxes = True, xdata = Some x, ydata = Some y\<rparr>"

text \<open>The sample after a press of the left button at the data point \<open>(2, 2)\<close>.\<close>

definition pressed :: viewer where
  "pressed =
     plotted\<lparr>is_dragging := True, drag_start := Some (Some 2, Some 2),
             xlim_start := Some (0, 10), ylim_start := Some (0, 10)\<rparr>"

text \<open>A pick of the left half of the first coin, with the given button.\<close>

definition pick_first :: "button \<Rightarrow> pick_event" where
  "pick_first b =
     \<lparr>mouseevent = pointer b 2 2, artist = half_disc 0 (Number 2, Number 2) 90 270 red\<rparr>"

text \<open>A pick of the left half of the third coin.\<close>

definition pick_third :: "button \<Rightarrow> pick_event" where
  "pick_third b =
     \<lparr>mouseevent = pointer b 8 3, artist = half_disc 2 (Number 8, Number 3) 90 270 red\<rparr>"

text \<open>The sample table without the three columns that the dialog prints.\<close>

definition plain_coins :: frame where
  "plain_coins = take 4 coins"

text \<open>A table with the same columns and the first coin only.\<close>

definition one_coin :: frame where
  "one_coin = map (\<lambda>(c, vs). (c, take 1 vs)) coins"

text \<open>
  The sample with a year for each coin, missing for the second: a numeric column with
  a missing value.
\<close>

definition dated_coins :: frame where
  "dated_coins = coins @ [(''year'', [Number 1520, Missing, Number 1520])]"

section \<open>Properties\<close>

subsection \<open>Auxiliary facts\<close>


lemma ax_plotted: "ax plotted = Some square10"
  by (simp add: plotted_def)

lemma ax_pressed: "ax pressed = Some square10"
  by (simp add: pressed_def plotted_def)

lemma on_press_sample: "on_press plotted (pointer LEFT 2 2) = Inr pressed"
  by (simp add: on_press_def pressed_def plotted_def configured_def init_def pointer_def
      square10_def)

lemma viewer_ax_update_same: "(s\<lparr>ax := v\<rparr> = s) = (v = ax s)"
  by (cases s) simp

lemma viewer_ax_update_inject: "(s\<lparr>ax := u\<rparr> = s\<lparr>ax := v\<rparr>) = (u = v)"
  by (cases s) simp

lemma axes_lims_update_same: "(a\<lparr>xlim := p, ylim := q\<rparr> = a) = (p = xlim a \<and> q = ylim a)"
  by (cases a) auto

text \<open>
  What \<^verbatim>\<open>on_scroll\<close> does once the cursor has data coordinates: the new limits are
  centred on the cursor, and their extent is the old extent times the scale factor.
\<close>

lemma on_scroll_centred:
  assumes "ax s = Some a" "xdata e = Some cx" "ydata e = Some cy"
  shows "on_scroll s e =
     Inr (s\<lparr>ax := Some (a\<lparr>
       xlim := (cx - (snd (xlim a) - fst (xlim a)) * scale_factor (button e) / 2,
                cx + (snd (xlim a) - fst (xlim a)) * scale_factor (button e) / 2),
       ylim := (cy - (snd (ylim a) - fst (ylim a)) * scale_factor (button e) / 2,
                cy + (snd (ylim a) - fst (ylim a)) * scale_factor (button e) / 2)\<rparr>)\<rparr>)"
  using assms by (simp add: on_scroll_def Let_def)

lemma centre_iff:
  fixes cx l r f :: real
  assumes "f \<noteq> 0"
  shows "((cx - (r - l) * f / 2, cx + (r - l) * f / 2) = (cx - (cx - l) * f, cx - (cx - r) * f))
         \<longleftrightarrow> cx = (l + r) / 2"
proof -
  have d1: "(cx - (r - l) * f / 2) - (cx - (cx - l) * f) = f * (cx - (l + r) / 2)"
    by (simp add: field_simps)
  have d2: "(cx + (r - l) * f / 2) - (cx - (cx - r) * f) = f * (cx - (l + r) / 2)"
    by (simp add: field_simps)
  have a: "(cx - (r - l) * f / 2 = cx - (cx - l) * f) \<longleftrightarrow> cx = (l + r) / 2"
  proof -
    have "(cx - (r - l) * f / 2 = cx - (cx - l) * f) \<longleftrightarrow> f * (cx - (l + r) / 2) = 0"
      using d1 by (metis eq_iff_diff_eq_0)
    then show ?thesis using assms by simp
  qed
  have b: "(cx + (r - l) * f / 2 = cx - (cx - r) * f) \<longleftrightarrow> cx = (l + r) / 2"
  proof -
    have "(cx + (r - l) * f / 2 = cx - (cx - r) * f) \<longleftrightarrow> f * (cx - (l + r) / 2) = 0"
      using d2 by (metis eq_iff_diff_eq_0)
    then show ?thesis using assms by simp
  qed
  show ?thesis unfolding prod.inject a b by simp
qed

lemma recentred_same:
  fixes cx :: real and p :: "real \<times> real"
  shows "((cx - (snd p - fst p) / 2, cx + (snd p - fst p) / 2) = p) \<longleftrightarrow> cx = (fst p + snd p) / 2"
  by (cases p) (auto simp: field_simps)

text \<open>Motion events during a drag: they never raise, and only the limits change.\<close>

lemma motions_append:
  "motions s (ms @ ns) = (case motions s ms of Inl x \<Rightarrow> Inl x | Inr s' \<Rightarrow> motions s' ns)"
  by (induction ms arbitrary: s) (auto split: sum.splits)

lemma on_motion_dragging:
  assumes "is_dragging s0" "drag_start s0 = Some (Some px, Some py)"
    and "xlim_start s0 = Some xl" "ylim_start s0 = Some yl"
  shows "\<exists>X Y. on_motion (s0\<lparr>ax := Some (a\<lparr>xlim := Xi, ylim := Yi\<rparr>)\<rparr>) m =
           Inr (s0\<lparr>ax := Some (a\<lparr>xlim := X, ylim := Y\<rparr>)\<rparr>)"
proof (cases "inaxes m \<and> truthy (xdata m) \<and> truthy (ydata m)")
  case True
  then obtain qx qy where "xdata m = Some qx" "ydata m = Some qy"
    by (auto simp: truthy_def split: option.splits)
  with True assms have "on_motion (s0\<lparr>ax := Some (a\<lparr>xlim := Xi, ylim := Yi\<rparr>)\<rparr>) m =
      Inr (s0\<lparr>ax := Some (a\<lparr>xlim := (fst xl - (qx - px), snd xl - (qx - px)),
                              ylim := (fst yl - (qy - py), snd yl - (qy - py))\<rparr>)\<rparr>)"
    by (simp add: on_motion_def py_sub_def)
  then show ?thesis by blast
next
  case False
  then have "on_motion (s0\<lparr>ax := Some (a\<lparr>xlim := Xi, ylim := Yi\<rparr>)\<rparr>) m =
      Inr (s0\<lparr>ax := Some (a\<lparr>xlim := Xi, ylim := Yi\<rparr>)\<rparr>)"
    by (auto simp: on_motion_def)
  then show ?thesis by blast
qed

lemma motions_dragging:
  assumes "is_dragging s0" "drag_start s0 = Some (Some px, Some py)"
    and "xlim_start s0 = Some xl" "ylim_start s0 = Some yl"
  shows "\<exists>X Y. motions (s0\<lparr>ax := Some (a\<lparr>xlim := Xi, ylim := Yi\<rparr>)\<rparr>) ms =
           Inr (s0\<lparr>ax := Some (a\<lparr>xlim := X, ylim := Y\<rparr>)\<rparr>)"
proof (induction ms arbitrary: Xi Yi)
  case Nil
  have "motions (s0\<lparr>ax := Some (a\<lparr>xlim := Xi, ylim := Yi\<rparr>)\<rparr>) [] =
      Inr (s0\<lparr>ax := Some (a\<lparr>xlim := Xi, ylim := Yi\<rparr>)\<rparr>)"
    by simp
  then show ?case by blast
next
  case (Cons m ms)
  obtain X Y where step: "on_motion (s0\<lparr>ax := Some (a\<lparr>xlim := Xi, ylim := Yi\<rparr>)\<rparr>) m =
           Inr (s0\<lparr>ax := Some (a\<lparr>xlim := X, ylim := Y\<rparr>)\<rparr>)"
    using on_motion_dragging [OF assms] by blast
  show ?case
    using Cons.IH [where Xi = X and Yi = Y] by (simp add: step)
qed

lemma on_motion_last:
  assumes "is_dragging s0" "drag_start s0 = Some (Some px, Some py)"
    and "xlim_start s0 = Some xl" "ylim_start s0 = Some yl"
    and "inaxes m" "xdata m = Some qx" "ydata m = Some qy" "qx \<noteq> 0" "qy \<noteq> 0"
  shows "on_motion (s0\<lparr>ax := Some (a\<lparr>xlim := Xi, ylim := Yi\<rparr>)\<rparr>) m =
           Inr (s0\<lparr>ax := Some (a\<lparr>xlim := (fst xl - (qx - px), snd xl - (qx - px)),
                                   ylim := (fst yl - (qy - py), snd yl - (qy - py))\<rparr>)\<rparr>)"
  using assms by (simp add: on_motion_def truthy_def py_sub_def)

text \<open>What a pick with the left button leaves behind, whether the handler raises or not.\<close>

lemma on_click_left_cases:
  assumes "button (mouseevent pe) = LEFT"
  shows "(\<exists>err. on_click s pe = Inl (err, s\<lparr>suppress_next_drag := True\<rparr>))
       \<or> (\<exists>n og rg. on_click s pe =
             Inr (s\<lparr>suppress_next_drag := True, messages := messages s @ [Coin_info n og rg]\<rparr>))"
proof (cases "iloc (df s) (gid (artist pe))")
  case (Inl err)
  then show ?thesis using assms by (simp add: on_click_def Let_def)
next
  case (Inr row)
  note row = this
  show ?thesis
  proof (cases "row_getitem row ''name''")
    case (Inl err)
    then show ?thesis using assms row by (simp add: on_click_def Let_def)
  next
    case (Inr n)
    note n = this
    show ?thesis
    proof (cases "row_getitem row ''obverse_group''")
      case (Inl err)
      then show ?thesis using assms row n by (simp add: on_click_def Let_def)
    next
      case (Inr og)
      note og = this
      show ?thesis
      proof (cases "row_getitem row ''reverse_group''")
        case (Inl err)
        then show ?thesis using assms row n og by (simp add: on_click_def Let_def)
      next
        case (Inr rg)
        then have "on_click s pe =
             Inr (s\<lparr>suppress_next_drag := True, messages := messages s @ [Coin_info n og rg]\<rparr>)"
          using assms row n og by (simp add: on_click_def Let_def)
        then show ?thesis by blast
      qed
    qed
  qed
qed

lemma on_click_left_state:
  assumes "button (mouseevent pe) = LEFT"
  shows "\<exists>msgs. state_after (on_click s pe) = s\<lparr>suppress_next_drag := True, messages := msgs\<rparr>"
proof -
  have a: "s\<lparr>suppress_next_drag := True\<rparr> = s\<lparr>suppress_next_drag := True, messages := messages s\<rparr>"
    by simp
  from on_click_left_cases [OF assms, of s] show ?thesis
  proof (elim disjE exE)
    fix err assume "on_click s pe = Inl (err, s\<lparr>suppress_next_drag := True\<rparr>)"
    then have "state_after (on_click s pe) = s\<lparr>suppress_next_drag := True, messages := messages s\<rparr>"
      by (simp add: state_after_def)
    then show ?thesis by blast
  next
    fix n og rg
    assume "on_click s pe =
             Inr (s\<lparr>suppress_next_drag := True, messages := messages s @ [Coin_info n og rg]\<rparr>)"
    then have "state_after (on_click s pe) =
        s\<lparr>suppress_next_drag := True, messages := messages s @ [Coin_info n og rg]\<rparr>"
      by (simp add: state_after_def)
    then show ?thesis by blast
  qed
qed


lemma motions_idle:
  assumes "\<not> is_dragging s"
  shows "motions s ms = Inr s"
  using assms by (induction ms) (simp_all add: on_motion_def)

lemma on_click_sample:
  "on_click plotted (pick_first LEFT) =
     Inr (plotted\<lparr>suppress_next_drag := True,
                  messages := [Coin_info (Text ''c1'') (Text ''A'') (Text ''X'')]\<rparr>)"
  by (simp add: on_click_def pick_first_def pointer_def half_disc_def iloc_def nrows_def
      row_getitem_def plotted_def configured_def init_def coins_def Let_def)

lemma row_getitem_iloc:
  "row_getitem (map (\<lambda>(c, vs). (c, vs ! i)) d) k =
     (case map_of d k of None \<Rightarrow> Inl KeyError | Some vs \<Rightarrow> Inr (vs ! i))"
  by (simp add: row_getitem_def map_of_map split: option.splits)

lemma on_click_left:
  assumes "button (mouseevent e) = LEFT" "gid (artist e) < nrows (df s)"
  shows "on_click s e =
     (case map_of (df s) ''name'' of
        None \<Rightarrow> Inl (KeyError, s\<lparr>suppress_next_drag := True\<rparr>)
      | Some cn \<Rightarrow>
          (case map_of (df s) ''obverse_group'' of
             None \<Rightarrow> Inl (KeyError, s\<lparr>suppress_next_drag := True\<rparr>)
           | Some co \<Rightarrow>
               (case map_of (df s) ''reverse_group'' of
                  None \<Rightarrow> Inl (KeyError, s\<lparr>suppress_next_drag := True\<rparr>)
                | Some cr \<Rightarrow>
                    Inr (s\<lparr>suppress_next_drag := True,
                           messages := messages s @
                             [Coin_info (cn ! gid (artist e)) (co ! gid (artist e))
                                (cr ! gid (artist e))]\<rparr>))))"
  using assms
  by (simp add: on_click_def iloc_def row_getitem_iloc Let_def split: option.splits)

text \<open>
  The distinct values of a column, and the dictionary built from them: each value is
  found at the position that counts the distinct values before its first occurrence.
\<close>

lemma set_unique_from: "set (unique_from seen vs) = set vs - set seen"
  by (induction vs arbitrary: seen) auto

lemma distinct_unique_from: "distinct (unique_from seen vs)"
  by (induction vs arbitrary: seen) (auto simp: set_unique_from)

lemma set_unique: "set (unique vs) = set vs"
  by (simp add: unique_def set_unique_from)

lemma distinct_unique: "distinct (unique vs)"
  by (simp add: unique_def distinct_unique_from)

lemma length_unique: "length (unique vs) = card (set vs)"
  using distinct_card [OF distinct_unique, of vs] by (simp add: set_unique)

lemma unique_from_first:
  assumes "v \<in> set vs" "v \<notin> set seen"
  shows "\<exists>pre post. unique_from seen vs = pre @ v # post
           \<and> length pre = card (set (takeWhile (\<lambda>u. u \<noteq> v) vs) - set seen)"
  using assms
proof (induction vs arbitrary: seen)
  case Nil
  then show ?case by simp
next
  case (Cons u us)
  show ?case
  proof (cases "u = v")
    case True
    then have "unique_from seen (u # us) = [] @ v # unique_from (v # seen) us
        \<and> length ([] :: 'a list) = card (set (takeWhile (\<lambda>u. u \<noteq> v) (u # us)) - set seen)"
      using Cons.prems by simp
    then show ?thesis
      by (intro exI)
  next
    case False
    then have vin: "v \<in> set us" using Cons.prems by simp
    show ?thesis
    proof (cases "u \<in> set seen")
      case True
      obtain pre post where p: "unique_from seen us = pre @ v # post"
        "length pre = card (set (takeWhile (\<lambda>u. u \<noteq> v) us) - set seen)"
        using Cons.IH [OF vin Cons.prems(2)] by blast
      have "set (takeWhile (\<lambda>u. u \<noteq> v) (u # us)) - set seen
          = set (takeWhile (\<lambda>u. u \<noteq> v) us) - set seen"
        using True False by auto
      then have "unique_from seen (u # us) = pre @ v # post
          \<and> length pre = card (set (takeWhile (\<lambda>u. u \<noteq> v) (u # us)) - set seen)"
        using p True by simp
      then show ?thesis
        by (intro exI)
    next
      case notseen: False
      have vn: "v \<notin> set (u # seen)" using False Cons.prems(2) by auto
      obtain pre post where p: "unique_from (u # seen) us = pre @ v # post"
        "length pre = card (set (takeWhile (\<lambda>u. u \<noteq> v) us) - set (u # seen))"
        using Cons.IH [OF vin vn] by blast
      have eq: "set (takeWhile (\<lambda>u. u \<noteq> v) (u # us)) - set seen
          = insert u (set (takeWhile (\<lambda>u. u \<noteq> v) us) - set (u # seen))"
        using notseen False by auto
      have c: "card (set (takeWhile (\<lambda>u. u \<noteq> v) (u # us)) - set seen)
          = Suc (card (set (takeWhile (\<lambda>u. u \<noteq> v) us) - set (u # seen)))"
        unfolding eq by (rule card_insert_disjoint) auto
      have "unique_from seen (u # us) = (u # pre) @ v # post
          \<and> length (u # pre) = card (set (takeWhile (\<lambda>u. u \<noteq> v) (u # us)) - set seen)"
        using notseen p c by simp
      then show ?thesis
        by (intro exI)
    qed
  qed
qed

lemma unique_index:
  assumes "v \<in> set vs"
  shows "card (set (takeWhile (\<lambda>u. u \<noteq> v) vs)) < length (unique vs)
       \<and> unique vs ! card (set (takeWhile (\<lambda>u. u \<noteq> v) vs)) = v"
proof -
  obtain pre post where p: "unique vs = pre @ v # post"
    "length pre = card (set (takeWhile (\<lambda>u. u \<noteq> v) vs))"
    using unique_from_first [OF assms, of "[]"] by (auto simp: unique_def)
  have "length pre < length (unique vs)" "unique vs ! length pre = v"
    by (simp_all add: p(1))
  then show ?thesis
    by (simp add: p(2))
qed

lemma dict_of_enumerate:
  assumes "n + length xs \<le> length palette"
  shows "\<exists>m. dict_of (enumerate n xs) palette m0 = Inr m
           \<and> dom m = dom m0 \<union> set xs
           \<and> (\<forall>k. distinct xs \<and> k < length xs \<longrightarrow> m (xs ! k) = Some (palette ! (n + k)))
           \<and> (\<forall>x. x \<notin> set xs \<longrightarrow> m x = m0 x)"
  using assms
proof (induction xs arbitrary: n m0)
  case Nil
  then show ?case by simp
next
  case (Cons x xs)
  have n: "n < length palette" and rest: "Suc n + length xs \<le> length palette"
    using Cons.prems by simp_all
  obtain m where m: "dict_of (enumerate (Suc n) xs) palette (m0(x \<mapsto> palette ! n)) = Inr m"
    "dom m = dom (m0(x \<mapsto> palette ! n)) \<union> set xs"
    "\<forall>k. distinct xs \<and> k < length xs \<longrightarrow> m (xs ! k) = Some (palette ! (Suc n + k))"
    "\<forall>y. y \<notin> set xs \<longrightarrow> m y = (m0(x \<mapsto> palette ! n)) y"
    using Cons.IH [OF rest, of "m0(x \<mapsto> palette ! n)"] by blast
  have run: "dict_of (enumerate n (x # xs)) palette m0 = Inr m"
    using n m(1) by simp
  have d: "dom m = dom m0 \<union> set (x # xs)"
    using m(2) by auto
  have idx: "m ((x # xs) ! k) = Some (palette ! (n + k))"
    if "distinct (x # xs)" "k < length (x # xs)" for k
  proof (cases k)
    case 0
    then show ?thesis using that(1) m(4) by simp
  next
    case (Suc j)
    then show ?thesis using that m(3) by simp
  qed
  have out: "m y = m0 y" if "y \<notin> set (x # xs)" for y
    using that m(4) by simp
  show ?case
    using run d idx out by blast
qed

lemma color_dict_unique:
  assumes "card (set vals) \<le> length palette"
  shows "\<exists>m. color_dict palette (unique vals) = Inr m
           \<and> dom m = set vals
           \<and> (\<forall>v\<in>set vals. m v = Some (palette ! card (set (takeWhile (\<lambda>u. u \<noteq> v) vals))))"
proof -
  have len: "0 + length (unique vals) \<le> length palette"
    using assms by (simp add: length_unique)
  obtain m where m: "dict_of (enumerate 0 (unique vals)) palette Map.empty = Inr m"
    "dom m = dom (Map.empty :: 'a \<rightharpoonup> color) \<union> set (unique vals)"
    "\<forall>k. distinct (unique vals) \<and> k < length (unique vals) \<longrightarrow>
        m (unique vals ! k) = Some (palette ! (0 + k))"
    using dict_of_enumerate [OF len, of Map.empty] by blast
  have "m v = Some (palette ! card (set (takeWhile (\<lambda>u. u \<noteq> v) vals)))" if "v \<in> set vals" for v
  proof -
    define k where "k = card (set (takeWhile (\<lambda>u. u \<noteq> v) vals))"
    have k: "k < length (unique vals)" "unique vals ! k = v"
      using unique_index [OF that] by (simp_all add: k_def)
    have "m (unique vals ! k) = Some (palette ! (0 + k))"
      using m(3) k(1) distinct_unique [of vals] by blast
    then have "m v = Some (palette ! k)"
      by (simp add: k(2))
    then show ?thesis
      by (simp add: k_def)
  qed
  then show ?thesis
    using m(1) m(2) by (simp add: color_dict_def set_unique)
qed

text \<open>
  A pick with another button, a pick of a coin whose row is no longer in the table, and
  a pick of a row of the table.
\<close>

lemma on_click_other_button:
  assumes "button (mouseevent e) \<noteq> LEFT"
  shows "on_click s e = Inr s"
  using assms by (simp add: on_click_def)

lemma on_click_stale_row:
  assumes "button (mouseevent e) = LEFT" "\<not> gid (artist e) < nrows (df s)"
  shows "on_click s e = Inl (IndexError, s\<lparr>suppress_next_drag := True\<rparr>)"
  using assms by (simp add: on_click_def iloc_def Let_def)

lemma on_click_row:
  assumes "button (mouseevent e) = LEFT" "gid (artist e) < nrows (df s)"
  shows "((\<exists>s'. on_click s e = Inr s') \<longleftrightarrow>
            ''name'' \<in> fst ` set (df s) \<and> ''obverse_group'' \<in> fst ` set (df s)
            \<and> ''reverse_group'' \<in> fst ` set (df s))
     \<and> (\<not> (''name'' \<in> fst ` set (df s) \<and> ''obverse_group'' \<in> fst ` set (df s)
            \<and> ''reverse_group'' \<in> fst ` set (df s)) \<longrightarrow>
          on_click s e = Inl (KeyError, s\<lparr>suppress_next_drag := True\<rparr>))
     \<and> (\<forall>cn co cr.
          map_of (df s) ''name'' = Some cn \<and> map_of (df s) ''obverse_group'' = Some co
          \<and> map_of (df s) ''reverse_group'' = Some cr \<longrightarrow>
          on_click s e =
            Inr (s\<lparr>suppress_next_drag := True,
                   messages := messages s @
                     [Coin_info (cn ! gid (artist e)) (co ! gid (artist e))
                        (cr ! gid (artist e))]\<rparr>))"
proof -
  have none: "\<And>k. (map_of (df s) k = None) = (k \<notin> fst ` set (df s))"
    by (rule map_of_eq_None_iff)
  show ?thesis
  proof (cases "map_of (df s) ''name''")
    case None
    then show ?thesis
      using none [of "''name''"] by (simp add: on_click_left [OF assms])
  next
    case (Some cn)
    note cn = this
    show ?thesis
    proof (cases "map_of (df s) ''obverse_group''")
      case None
      then show ?thesis
        using none [of "''obverse_group''"] cn by (simp add: on_click_left [OF assms])
    next
      case (Some co)
      note co = this
      show ?thesis
      proof (cases "map_of (df s) ''reverse_group''")
        case None
        then show ?thesis
          using none [of "''reverse_group''"] cn co by (simp add: on_click_left [OF assms])
      next
        case (Some cr)
        then show ?thesis
          using none [of "''name''"] none [of "''obverse_group''"] none [of "''reverse_group''"]
            cn co
          by (simp add: on_click_left [OF assms])
      qed
    qed
  qed
qed










lemma plot_coins_text_coordinate:
  "plot_coins sample_palette sample_autoscale (configured\<lparr>x_column := ''name''\<rparr>) =
     Inl (TypeError, configured\<lparr>x_column := ''name'', ax := Some new_axes, patches := []\<rparr>)"
  by (simp add: plot_coins_def configured_def init_def coins_def getitem_def unique_def
      color_dict_def sample_palette_def sample_autoscale_def
      new_axes_def enumerate_eq_zip Let_def numeral_2_eq_2
      numeric_column_def is_text_def dict_getitem_def wedge1_def wedge2_def Wedge_def)

lemma plot_coins_missing_category:
  "plot_coins sample_palette sample_autoscale
       (configured\<lparr>df := dated_coins, obv_column := ''year''\<rparr>) =
     Inl (KeyError,
          configured\<lparr>df := dated_coins, obv_column := ''year'',
            ax := Some (new_axes\<lparr>ax_patches :=
              [half_disc 0 (Number 2, Number 2) 90 270 red,
               half_disc 0 (Number 2, Number 2) 270 90 green]\<rparr>),
            patches :=
              [(half_disc 0 (Number 2, Number 2) 90 270 red,
                half_disc 0 (Number 2, Number 2) 270 90 green)]\<rparr>)"
  by (simp add: plot_coins_def configured_def init_def dated_coins_def coins_def getitem_def
      unique_def color_dict_def sample_palette_def sample_autoscale_def
      new_axes_def enumerate_eq_zip Let_def numeral_2_eq_2
      numeric_column_def is_text_def dict_getitem_def wedge1_def wedge2_def Wedge_def)

subsection \<open>Zooming\<close>

text \<open>
  Claim C1, as the code has it. A wheel-up event whose cursor has the data coordinates
  \<open>(cx, cy)\<close> sets the limits to the interval of \<open>1 / 1.2\<close> times the old extent
  \<^emph>\<open>centred on the cursor\<close>: \<open>xMin_new = cx - (xMax_old - xMin_old) * factor / 2\<close> and
  \<open>xMax_new = cx + (xMax_old - xMin_old) * factor / 2\<close>, likewise for y. These are the
  bounds \<open>cx - (cx - xMin_old) * factor\<close>, \<open>cx - (cx - xMax_old) * factor\<close> of the
  specification exactly when the cursor is at the centre of the old limits, on each axis.
\<close>

theorem on_scroll_up_centres_on_cursor:
  assumes "ax s = Some a" "xdata e = Some cx" "ydata e = Some cy" "button e = Wheel_up"
  shows "on_scroll s e =
     Inr (s\<lparr>ax := Some (a\<lparr>
       xlim := (cx - (snd (xlim a) - fst (xlim a)) * (1 / base_scale) / 2,
                cx + (snd (xlim a) - fst (xlim a)) * (1 / base_scale) / 2),
       ylim := (cy - (snd (ylim a) - fst (ylim a)) * (1 / base_scale) / 2,
                cy + (snd (ylim a) - fst (ylim a)) * (1 / base_scale) / 2)\<rparr>)\<rparr>)
   \<and> ((cx - (snd (xlim a) - fst (xlim a)) * (1 / base_scale) / 2,
        cx + (snd (xlim a) - fst (xlim a)) * (1 / base_scale) / 2)
         = xlim (spec_zoomAround cx cy (1 / base_scale) a)
        \<longleftrightarrow> cx = (fst (xlim a) + snd (xlim a)) / 2)
   \<and> ((cy - (snd (ylim a) - fst (ylim a)) * (1 / base_scale) / 2,
        cy + (snd (ylim a) - fst (ylim a)) * (1 / base_scale) / 2)
         = ylim (spec_zoomAround cx cy (1 / base_scale) a)
        \<longleftrightarrow> cy = (fst (ylim a) + snd (ylim a)) / 2)"
proof -
  have sf: "scale_factor (button e) = 1 / base_scale"
    using assms(4) by (simp add: scale_factor_def)
  have nz: "1 / base_scale \<noteq> 0"
    by (simp add: base_scale_def)
  have run: "on_scroll s e =
     Inr (s\<lparr>ax := Some (a\<lparr>
       xlim := (cx - (snd (xlim a) - fst (xlim a)) * (1 / base_scale) / 2,
                cx + (snd (xlim a) - fst (xlim a)) * (1 / base_scale) / 2),
       ylim := (cy - (snd (ylim a) - fst (ylim a)) * (1 / base_scale) / 2,
                cy + (snd (ylim a) - fst (ylim a)) * (1 / base_scale) / 2)\<rparr>)\<rparr>)"
    using on_scroll_centred [OF assms(1-3)] sf by simp
  have x: "xlim (spec_zoomAround cx cy (1 / base_scale) a) =
        (cx - (cx - fst (xlim a)) * (1 / base_scale), cx - (cx - snd (xlim a)) * (1 / base_scale))"
    by (simp add: spec_zoomAround_def)
  have y: "ylim (spec_zoomAround cx cy (1 / base_scale) a) =
        (cy - (cy - fst (ylim a)) * (1 / base_scale), cy - (cy - snd (ylim a)) * (1 / base_scale))"
    by (simp add: spec_zoomAround_def)
  show ?thesis
    unfolding x y using run centre_iff [OF nz] by blast
qed

text \<open>The sample, wheel-up with the cursor at \<open>(2, 5)\<close>: the limits in x become \<open>[-13/6, 37/6]\<close>.\<close>

theorem on_scroll_up_centres_on_cursor_witness:
  "ax plotted = Some square10
   \<and> on_scroll plotted (pointer Wheel_up 2 5) =
       Inr (plotted\<lparr>ax := Some (square10\<lparr>xlim := (- 13 / 6, 37 / 6), ylim := (5 / 6, 55 / 6)\<rparr>)\<rparr>)"
  using on_scroll_up_centres_on_cursor [OF ax_plotted, of "pointer Wheel_up 2 5" 2 5]
  by (simp add: ax_plotted pointer_def square10_def base_scale_def)

text \<open>
  Claim C1 as stated fails: with the limits \<open>[0,10] \<times> [0,10]\<close> and the cursor at
  \<open>(2, 5)\<close>, the code sets the limits in x to \<open>[-13/6, 37/6]\<close>, where the
  specification's formula gives \<open>[1/3, 26/3]\<close>.
\<close>

theorem zoom_around_cursor_counterexample:
  "on_scroll plotted (pointer Wheel_up 2 5) =
     Inr (plotted\<lparr>ax := Some (square10\<lparr>xlim := (- 13 / 6, 37 / 6), ylim := (5 / 6, 55 / 6)\<rparr>)\<rparr>)
   \<and> xlim (spec_zoomAround 2 5 (1 / base_scale) square10) = (1 / 3, 26 / 3)
   \<and> on_scroll plotted (pointer Wheel_up 2 5) \<noteq>
       Inr (plotted\<lparr>ax := Some (spec_zoomAround 2 5 (1 / base_scale) square10)\<rparr>)"
proof -
  have run: "on_scroll plotted (pointer Wheel_up 2 5) =
     Inr (plotted\<lparr>ax := Some (square10\<lparr>xlim := (- 13 / 6, 37 / 6), ylim := (5 / 6, 55 / 6)\<rparr>)\<rparr>)"
    by (simp add: on_scroll_def ax_plotted pointer_def square10_def scale_factor_def
        base_scale_def Let_def)
  have spec: "xlim (spec_zoomAround 2 5 (1 / base_scale) square10) = (1 / 3, 26 / 3)"
    by (simp add: spec_zoomAround_def square10_def base_scale_def)
  have "on_scroll plotted (pointer Wheel_up 2 5) \<noteq>
       Inr (plotted\<lparr>ax := Some (spec_zoomAround 2 5 (1 / base_scale) square10)\<rparr>)"
    unfolding run
    by (simp add: viewer_ax_update_inject spec_zoomAround_def square10_def base_scale_def)
  with run spec show ?thesis by simp
qed

text \<open>
  Claim C2, as the code has it. For a scroll event whose cursor has data coordinates, the
  new limits are centred on the cursor and their extent is the old extent times the
  factor: \<open>1 / 1.2\<close> for wheel-up, \<open>1.2\<close> for wheel-down, \<open>1\<close> for anything else. With
  the factor \<open>1\<close> the extent is kept, but the limits are still moved to the cursor: the
  event leaves the state unchanged exactly when the cursor is at the centre of the limits.
\<close>

theorem on_scroll_factors:
  assumes "ax s = Some a" "xdata e = Some cx" "ydata e = Some cy"
  shows "on_scroll s e =
     Inr (s\<lparr>ax := Some (a\<lparr>
       xlim := (cx - (snd (xlim a) - fst (xlim a)) *
                  (if button e = Wheel_up then 1 / (12 / 10)
                   else if button e = Wheel_down then 12 / 10 else 1) / 2,
                cx + (snd (xlim a) - fst (xlim a)) *
                  (if button e = Wheel_up then 1 / (12 / 10)
                   else if button e = Wheel_down then 12 / 10 else 1) / 2),
       ylim := (cy - (snd (ylim a) - fst (ylim a)) *
                  (if button e = Wheel_up then 1 / (12 / 10)
                   else if button e = Wheel_down then 12 / 10 else 1) / 2,
                cy + (snd (ylim a) - fst (ylim a)) *
                  (if button e = Wheel_up then 1 / (12 / 10)
                   else if button e = Wheel_down then 12 / 10 else 1) / 2)\<rparr>)\<rparr>)
   \<and> (button e \<noteq> Wheel_up \<and> button e \<noteq> Wheel_down \<longrightarrow>
        (on_scroll s e = Inr s \<longleftrightarrow>
           cx = (fst (xlim a) + snd (xlim a)) / 2 \<and> cy = (fst (ylim a) + snd (ylim a)) / 2))"
proof -
  have sf: "scale_factor (button e) =
      (if button e = Wheel_up then 1 / (12 / 10)
       else if button e = Wheel_down then 12 / 10 else 1)"
    by (simp add: scale_factor_def base_scale_def)
  have run: "on_scroll s e =
     Inr (s\<lparr>ax := Some (a\<lparr>
       xlim := (cx - (snd (xlim a) - fst (xlim a)) * scale_factor (button e) / 2,
                cx + (snd (xlim a) - fst (xlim a)) * scale_factor (button e) / 2),
       ylim := (cy - (snd (ylim a) - fst (ylim a)) * scale_factor (button e) / 2,
                cy + (snd (ylim a) - fst (ylim a)) * scale_factor (button e) / 2)\<rparr>)\<rparr>)"
    by (rule on_scroll_centred [OF assms])
  have other: "on_scroll s e = Inr s \<longleftrightarrow>
           cx = (fst (xlim a) + snd (xlim a)) / 2 \<and> cy = (fst (ylim a) + snd (ylim a)) / 2"
    if "button e \<noteq> Wheel_up" "button e \<noteq> Wheel_down"
  proof -
    have one: "scale_factor (button e) = 1"
      using that by (simp add: scale_factor_def)
    have "on_scroll s e = Inr s \<longleftrightarrow>
        (cx - (snd (xlim a) - fst (xlim a)) / 2, cx + (snd (xlim a) - fst (xlim a)) / 2) = xlim a
        \<and> (cy - (snd (ylim a) - fst (ylim a)) / 2, cy + (snd (ylim a) - fst (ylim a)) / 2) = ylim a"
      unfolding run one
      by (simp add: viewer_ax_update_same axes_lims_update_same assms(1))
    also have "\<dots> \<longleftrightarrow>
        cx = (fst (xlim a) + snd (xlim a)) / 2 \<and> cy = (fst (ylim a) + snd (ylim a)) / 2"
      by (simp only: recentred_same)
    finally show ?thesis .
  qed
  show ?thesis
    using run other unfolding sf by blast
qed

text \<open>
  The sample: wheel-down at the centre widens \<open>[0,10]\<close> to \<open>[-1,11]\<close>, and an event
  that is neither up nor down, at the centre, changes nothing.
\<close>

theorem on_scroll_factors_witness:
  "on_scroll plotted (pointer Wheel_down 5 5) =
     Inr (plotted\<lparr>ax := Some (square10\<lparr>xlim := (- 1, 11), ylim := (- 1, 11)\<rparr>)\<rparr>)
   \<and> on_scroll plotted (pointer NoButton 5 5) = Inr plotted"
  using on_scroll_factors [OF ax_plotted, of "pointer Wheel_down 5 5" 5 5]
        on_scroll_factors [OF ax_plotted, of "pointer NoButton 5 5" 5 5]
  by (simp add: pointer_def square10_def viewer_ax_update_same ax_plotted)

text \<open>
  Claim C2 as stated fails in its last part: a scroll event that is neither up nor down,
  with the cursor at \<open>(2, 5)\<close> in the limits \<open>[0,10] \<times> [0,10]\<close>, moves the limits in x
  to \<open>[-3, 7]\<close>.
\<close>

theorem scroll_other_signal_counterexample:
  "on_scroll plotted (pointer NoButton 2 5) =
     Inr (plotted\<lparr>ax := Some (square10\<lparr>xlim := (- 3, 7), ylim := (0, 10)\<rparr>)\<rparr>)
   \<and> on_scroll plotted (pointer NoButton 2 5) \<noteq> Inr plotted"
proof -
  have run: "on_scroll plotted (pointer NoButton 2 5) =
     Inr (plotted\<lparr>ax := Some (square10\<lparr>xlim := (- 3, 7), ylim := (0, 10)\<rparr>)\<rparr>)"
    by (simp add: on_scroll_def ax_plotted pointer_def square10_def scale_factor_def Let_def)
  show ?thesis
    by (simp add: run viewer_ax_update_same ax_plotted square10_def)
qed

text \<open>
  Claim C7. With the limits \<open>[0,10] \<times> [0,10]\<close>, a wheel-up event with the cursor at
  \<open>(5, 5)\<close> applies the factor \<open>1 / 1.2\<close> and sets both limits to
  \<open>[5 - 5/1.2, 5 + 5/1.2]\<close>, which is \<open>[5/6, 55/6]\<close>.
\<close>

theorem scroll_up_at_centre_of_square:
  assumes "ax s = Some a" "xlim a = (0, 10)" "ylim a = (0, 10)"
    and "button e = Wheel_up" "xdata e = Some 5" "ydata e = Some 5"
  shows "on_scroll s e =
       Inr (s\<lparr>ax := Some (a\<lparr>xlim := (5 - 5 / (12 / 10), 5 + 5 / (12 / 10)),
                             ylim := (5 - 5 / (12 / 10), 5 + 5 / (12 / 10))\<rparr>)\<rparr>)
     \<and> (5 - 5 / (12 / 10), 5 + 5 / (12 / 10)) = (5 / 6 :: real, 55 / 6 :: real)
     \<and> scale_factor (button e) = 1 / (12 / 10)"
  using assms on_scroll_centred [OF assms(1) assms(5) assms(6)]
  by (simp add: scale_factor_def base_scale_def)

theorem scroll_up_at_centre_of_square_witness:
  "xlim square10 = (0, 10) \<and> ylim square10 = (0, 10)
   \<and> on_scroll plotted (pointer Wheel_up 5 5) =
       Inr (plotted\<lparr>ax := Some (square10\<lparr>xlim := (5 / 6, 55 / 6), ylim := (5 / 6, 55 / 6)\<rparr>)\<rparr>)"
  using scroll_up_at_centre_of_square [OF ax_plotted, of "pointer Wheel_up 5 5"]
  by (simp add: pointer_def square10_def)

subsection \<open>Dragging\<close>

text \<open>
  A drag whose last motion event has non-zero data coordinates: the final limits are
  those recorded at the press, translated by \<open>-(q - p)\<close>, whatever the motion events
  before the last one were.
\<close>

theorem drag_pans_by_last_motion:
  assumes "\<not> suppress_next_drag s" "ax s = Some a"
    and "button p = LEFT" "inaxes p" "xdata p = Some px" "ydata p = Some py"
    and "ms \<noteq> []" "inaxes (last ms)" "xdata (last ms) = Some qx" "ydata (last ms) = Some qy"
    and "qx \<noteq> 0" "qy \<noteq> 0"
  shows "drag s p ms r =
     Inr (s\<lparr>is_dragging := False,
            drag_start := Some (Some px, Some py),
            xlim_start := Some (xlim a),
            ylim_start := Some (ylim a),
            ax := Some (a\<lparr>xlim := (fst (xlim a) - (qx - px), snd (xlim a) - (qx - px)),
                           ylim := (fst (ylim a) - (qy - py), snd (ylim a) - (qy - py))\<rparr>)\<rparr>)"
proof -
  define s0 where "s0 = s\<lparr>is_dragging := True, drag_start := Some (Some px, Some py),
                        xlim_start := Some (xlim a), ylim_start := Some (ylim a)\<rparr>"
  have press: "on_press s p = Inr s0"
    using assms(1-6) by (simp add: on_press_def s0_def)
  have s0: "is_dragging s0" "drag_start s0 = Some (Some px, Some py)"
    "xlim_start s0 = Some (xlim a)" "ylim_start s0 = Some (ylim a)"
    by (simp_all add: s0_def)
  have start: "s0 = s0\<lparr>ax := Some (a\<lparr>xlim := xlim a, ylim := ylim a\<rparr>)\<rparr>"
    using assms(2) by (simp add: s0_def)
  obtain X Y where pre: "motions s0 (butlast ms) = Inr (s0\<lparr>ax := Some (a\<lparr>xlim := X, ylim := Y\<rparr>)\<rparr>)"
    using motions_dragging [OF s0, where a = a and Xi = "xlim a" and Yi = "ylim a" and ms = "butlast ms"] start by metis
  have "motions s0 ms = motions s0 (butlast ms @ [last ms])"
    using assms(7) by simp
  also have "\<dots> = on_motion (s0\<lparr>ax := Some (a\<lparr>xlim := X, ylim := Y\<rparr>)\<rparr>) (last ms)"
    by (simp add: motions_append pre split: sum.splits)
  also have "\<dots> = Inr (s0\<lparr>ax := Some (a\<lparr>xlim := (fst (xlim a) - (qx - px), snd (xlim a) - (qx - px)),
                                   ylim := (fst (ylim a) - (qy - py), snd (ylim a) - (qy - py))\<rparr>)\<rparr>)"
    by (rule on_motion_last [OF s0 assms(8-12)])
  finally have ms: "motions s0 ms = Inr (s0\<lparr>ax := Some (a\<lparr>xlim := (fst (xlim a) - (qx - px), snd (xlim a) - (qx - px)),
                                   ylim := (fst (ylim a) - (qy - py), snd (ylim a) - (qy - py))\<rparr>)\<rparr>)" .
  have "drag s p ms r =
      on_release (s0\<lparr>ax := Some (a\<lparr>xlim := (fst (xlim a) - (qx - px), snd (xlim a) - (qx - px)),
                                   ylim := (fst (ylim a) - (qy - py), snd (ylim a) - (qy - py))\<rparr>)\<rparr>) r"
    by (simp add: drag_def press ms)
  then show ?thesis
    by (simp add: on_release_def s0_def)
qed

theorem drag_pans_by_last_motion_witness:
  "drag plotted (pointer LEFT 2 2) [pointer LEFT 7 7, pointer LEFT 3 4] (pointer LEFT 3 4) =
     Inr (pressed\<lparr>is_dragging := False,
                  ax := Some (square10\<lparr>xlim := (- 1, 9), ylim := (- 2, 8)\<rparr>)\<rparr>)"
  using drag_pans_by_last_motion [OF _ ax_plotted, of "pointer LEFT 2 2" 2 2
      "[pointer LEFT 7 7, pointer LEFT 3 4]" 3 4 "pointer LEFT 3 4"]
  by (simp add: pointer_def pressed_def plotted_def configured_def init_def square10_def)

text \<open>
  Claim C3 at a drag whose last motion event has the x coordinate \<open>0\<close>: press at
  \<open>(2, 2)\<close>, motion to \<open>(0, 4)\<close>, release. The limits stay \<open>[0,10] \<times> [0,10]\<close>; the
  translation by \<open>-(q - p)\<close> would give \<open>[2,12] \<times> [-2,8]\<close>.
\<close>

theorem drag_last_motion_at_zero:
  "drag plotted (pointer LEFT 2 2) [pointer LEFT 0 4] (pointer LEFT 0 4) =
     Inr (pressed\<lparr>is_dragging := False\<rparr>)
   \<and> ax (pressed\<lparr>is_dragging := False\<rparr>) = Some square10
   \<and> square10 \<noteq> square10\<lparr>xlim := (2, 12), ylim := (- 2, 8)\<rparr>"
proof -
  have m: "on_motion pressed (pointer LEFT 0 4) = Inr pressed"
    by (simp add: on_motion_def truthy_def pointer_def)
  have "drag plotted (pointer LEFT 2 2) [pointer LEFT 0 4] (pointer LEFT 0 4) =
     Inr (pressed\<lparr>is_dragging := False\<rparr>)"
    by (simp add: drag_def on_press_sample m on_release_def)
  moreover have "square10 \<noteq> square10\<lparr>xlim := (2, 12), ylim := (- 2, 8)\<rparr>"
    by (simp add: square10_def)
  ultimately show ?thesis
    by (simp add: ax_pressed)
qed

text \<open>
  Claim C10. While a drag is active, a motion event whose x or y data coordinate is
  exactly \<open>0\<close> leaves the state as it is, as a motion event outside the axes does.
\<close>

theorem motion_at_zero_ignored:
  assumes "is_dragging s" "xdata e = Some 0 \<or> ydata e = Some 0"
  shows "on_motion s e = Inr s
     \<and> on_motion s (e\<lparr>inaxes := False, xdata := None, ydata := None\<rparr>) = Inr s"
  using assms by (auto simp: on_motion_def truthy_def)

theorem motion_at_zero_ignored_witness:
  "is_dragging pressed \<and> on_motion pressed (pointer LEFT 0 4) = Inr pressed
   \<and> on_motion pressed (pointer LEFT 3 0) = Inr pressed"
  using motion_at_zero_ignored [of pressed "pointer LEFT 0 4"]
        motion_at_zero_ignored [of pressed "pointer LEFT 3 0"]
  by (simp add: pressed_def pointer_def)

subsection \<open>Picking\<close>

text \<open>
  Claim C4. A pick is a click on a coin with the left button (the handler ignores every
  other button), and it comes first in its gesture, when no drag is active. After it,
  the next press is dropped: it only clears the flag that the pick has set. The limits
  are those from before the pick, no drag is active, and any motion events that follow
  leave the state as it is. (State after the pick: whether or not the handler raised on
  the way to its dialog.)
\<close>

theorem press_after_pick_is_dropped:
  assumes "button (mouseevent pe) = LEFT" "\<not> is_dragging s"
  shows "suppress_next_drag (state_after (on_click s pe))
    \<and> on_press (state_after (on_click s pe)) e =
        Inr ((state_after (on_click s pe))\<lparr>suppress_next_drag := False\<rparr>)
    \<and> ax ((state_after (on_click s pe))\<lparr>suppress_next_drag := False\<rparr>) = ax s
    \<and> \<not> is_dragging ((state_after (on_click s pe))\<lparr>suppress_next_drag := False\<rparr>)
    \<and> motions ((state_after (on_click s pe))\<lparr>suppress_next_drag := False\<rparr>) ms =
        Inr ((state_after (on_click s pe))\<lparr>suppress_next_drag := False\<rparr>)"
proof -
  obtain msgs where st: "state_after (on_click s pe) = s\<lparr>suppress_next_drag := True, messages := msgs\<rparr>"
    using on_click_left_state [OF assms(1)] by blast
  define s2 where "s2 = s\<lparr>suppress_next_drag := False, messages := msgs\<rparr>"
  have e: "(state_after (on_click s pe))\<lparr>suppress_next_drag := False\<rparr> = s2"
    by (simp add: st s2_def)
  have idle: "\<not> is_dragging s2"
    using assms(2) by (simp add: s2_def)
  have 1: "suppress_next_drag (state_after (on_click s pe))"
    by (simp add: st)
  have 2: "on_press (state_after (on_click s pe)) e = Inr s2"
    by (simp add: st on_press_def s2_def)
  have 3: "ax s2 = ax s"
    by (simp add: s2_def)
  have 4: "motions s2 ms = Inr s2"
    by (rule motions_idle [OF idle])
  show ?thesis
    unfolding e using 1 2 3 idle 4 by (intro conjI)
qed

text \<open>The sample: pick of the first coin, then a press and two motion events.\<close>

theorem press_after_pick_is_dropped_witness:
  "on_press (plotted\<lparr>suppress_next_drag := True,
                  messages := [Coin_info (Text ''c1'') (Text ''A'') (Text ''X'')]\<rparr>) (pointer LEFT 2 2) =
     Inr (plotted\<lparr>messages := [Coin_info (Text ''c1'') (Text ''A'') (Text ''X'')]\<rparr>)
   \<and> motions (plotted\<lparr>messages := [Coin_info (Text ''c1'') (Text ''A'') (Text ''X'')]\<rparr>)
        [pointer LEFT 3 4, pointer LEFT 6 1] =
     Inr (plotted\<lparr>messages := [Coin_info (Text ''c1'') (Text ''A'') (Text ''X'')]\<rparr>)"
proof -
  have b: "button (mouseevent (pick_first LEFT)) = LEFT"
    by (simp add: pick_first_def pointer_def)
  have i: "\<not> is_dragging plotted"
    by (simp add: plotted_def configured_def init_def)
  have f: "\<not> suppress_next_drag plotted"
    by (simp add: plotted_def configured_def init_def)
  have e: "plotted\<lparr>suppress_next_drag := True,
                  messages := [Coin_info (Text ''c1'') (Text ''A'') (Text ''X'')],
                  suppress_next_drag := False\<rparr> =
           plotted\<lparr>messages := [Coin_info (Text ''c1'') (Text ''A'') (Text ''X'')]\<rparr>"
    using f by (cases plotted) simp
  show ?thesis
    using press_after_pick_is_dropped [OF b i, of "pointer LEFT 2 2" "[pointer LEFT 3 4, pointer LEFT 6 1]"]
    by (simp add: on_click_sample state_after_def e)
qed

text \<open>
  Claim C9, as the code has it. A pick with a button other than the left one returns at
  once: no error, no dialog, the flag not set, whatever the columns of the table are. A
  pick with the left button of a coin whose row index is not in the table (a shorter
  table was loaded after the plot) raises \<^verbatim>\<open>IndexError\<close> with the flag already set,
  whatever the columns are. A pick with the left button of a row of the table returns
  iff the table has the columns \<^verbatim>\<open>name\<close>, \<^verbatim>\<open>obverse_group\<close> and \<^verbatim>\<open>reverse_group\<close>;
  when one is absent it raises \<^verbatim>\<open>KeyError\<close> with the flag already set and nothing else
  changed; when all are present it shows the three cells of that row.
\<close>

theorem pick_succeeds_iff_columns:
  "(button (mouseevent e) \<noteq> LEFT \<longrightarrow> on_click s e = Inr s)
   \<and> (button (mouseevent e) = LEFT \<and> \<not> gid (artist e) < nrows (df s) \<longrightarrow>
        on_click s e = Inl (IndexError, s\<lparr>suppress_next_drag := True\<rparr>))
   \<and> (button (mouseevent e) = LEFT \<and> gid (artist e) < nrows (df s) \<longrightarrow>
        ((\<exists>s'. on_click s e = Inr s') \<longleftrightarrow>
            ''name'' \<in> fst ` set (df s) \<and> ''obverse_group'' \<in> fst ` set (df s)
            \<and> ''reverse_group'' \<in> fst ` set (df s))
        \<and> (\<not> (''name'' \<in> fst ` set (df s) \<and> ''obverse_group'' \<in> fst ` set (df s)
            \<and> ''reverse_group'' \<in> fst ` set (df s)) \<longrightarrow>
          on_click s e = Inl (KeyError, s\<lparr>suppress_next_drag := True\<rparr>))
        \<and> (\<forall>cn co cr.
          map_of (df s) ''name'' = Some cn \<and> map_of (df s) ''obverse_group'' = Some co
          \<and> map_of (df s) ''reverse_group'' = Some cr \<longrightarrow>
          on_click s e =
            Inr (s\<lparr>suppress_next_drag := True,
                   messages := messages s @
                     [Coin_info (cn ! gid (artist e)) (co ! gid (artist e))
                        (cr ! gid (artist e))]\<rparr>)))"
  using on_click_other_button [of e s] on_click_stale_row [of e s] on_click_row [of e s]
  by blast

text \<open>
  The sample: a left pick of the first coin, the same without the three columns, a pick
  with the middle button, and a left pick of the third coin after a table of one row
  has been loaded.
\<close>

theorem pick_succeeds_iff_columns_witness:
  "on_click plotted (pick_first LEFT) =
     Inr (plotted\<lparr>suppress_next_drag := True,
                  messages := [Coin_info (Text ''c1'') (Text ''A'') (Text ''X'')]\<rparr>)
   \<and> on_click (plotted\<lparr>df := plain_coins\<rparr>) (pick_first LEFT) =
       Inl (KeyError, plotted\<lparr>df := plain_coins, suppress_next_drag := True\<rparr>)
   \<and> on_click plotted (pick_first MIDDLE) = Inr plotted
   \<and> on_click (plotted\<lparr>df := one_coin\<rparr>) (pick_third LEFT) =
       Inl (IndexError, plotted\<lparr>df := one_coin, suppress_next_drag := True\<rparr>)"
proof -
  have b: "button (mouseevent (pick_first LEFT)) = LEFT"
    by (simp add: pick_first_def pointer_def)
  have b3: "button (mouseevent (pick_third LEFT)) = LEFT"
    by (simp add: pick_third_def pointer_def)
  have bm: "button (mouseevent (pick_first MIDDLE)) \<noteq> LEFT"
    by (simp add: pick_first_def pointer_def)
  have g: "gid (artist (pick_first LEFT)) = 0"
    by (simp add: pick_first_def half_disc_def)
  have g3: "gid (artist (pick_third LEFT)) = 2"
    by (simp add: pick_third_def half_disc_def)
  have d: "df plotted = coins"
    by (simp add: plotted_def configured_def)
  have i: "gid (artist (pick_first LEFT)) < nrows (df plotted)"
    by (simp add: g d coins_def nrows_def)
  have j: "gid (artist (pick_first LEFT)) < nrows (df (plotted\<lparr>df := plain_coins\<rparr>))"
    by (simp add: g plain_coins_def coins_def nrows_def)
  have k: "\<not> gid (artist (pick_third LEFT)) < nrows (df (plotted\<lparr>df := one_coin\<rparr>))"
    by (simp add: g3 one_coin_def coins_def nrows_def)
  have m: "messages plotted = []"
    by (simp add: plotted_def configured_def init_def)
  have cols: "map_of (df plotted) ''name'' = Some [Text ''c1'', Text ''c2'', Text ''c3'']
      \<and> map_of (df plotted) ''obverse_group'' = Some [Text ''A'', Text ''B'', Text ''A'']
      \<and> map_of (df plotted) ''reverse_group'' = Some [Text ''X'', Text ''Y'', Text ''X'']"
    by (simp add: d coins_def)
  have absent: "\<not> (''name'' \<in> fst ` set (df (plotted\<lparr>df := plain_coins\<rparr>))
      \<and> ''obverse_group'' \<in> fst ` set (df (plotted\<lparr>df := plain_coins\<rparr>))
      \<and> ''reverse_group'' \<in> fst ` set (df (plotted\<lparr>df := plain_coins\<rparr>)))"
    by (simp add: plain_coins_def coins_def)
  have 1: "on_click plotted (pick_first LEFT) =
     Inr (plotted\<lparr>suppress_next_drag := True,
                  messages := [Coin_info (Text ''c1'') (Text ''A'') (Text ''X'')]\<rparr>)"
    using pick_succeeds_iff_columns [of "pick_first LEFT" plotted] b i cols
    by (simp add: g m)
  have 2: "on_click (plotted\<lparr>df := plain_coins\<rparr>) (pick_first LEFT) =
       Inl (KeyError, plotted\<lparr>df := plain_coins, suppress_next_drag := True\<rparr>)"
    using pick_succeeds_iff_columns [of "pick_first LEFT" "plotted\<lparr>df := plain_coins\<rparr>"] b j absent
    by simp
  have 3: "on_click plotted (pick_first MIDDLE) = Inr plotted"
    using pick_succeeds_iff_columns [of "pick_first MIDDLE" plotted] bm by simp
  have 4: "on_click (plotted\<lparr>df := one_coin\<rparr>) (pick_third LEFT) =
       Inl (IndexError, plotted\<lparr>df := one_coin, suppress_next_drag := True\<rparr>)"
    using pick_succeeds_iff_columns [of "pick_third LEFT" "plotted\<lparr>df := one_coin\<rparr>"] b3 k by simp
  show ?thesis
    using 1 2 3 4 by (intro conjI)
qed

text \<open>
  Claim C9 as stated fails in two ways. With the right button the handler returns
  without an error and without setting the flag, although the table has no column
  \<^verbatim>\<open>name\<close>. And a left pick of the third coin raises \<^verbatim>\<open>IndexError\<close> once a
  table of one row has been loaded, although that table has the three columns.
\<close>

theorem pick_outcome_counterexample:
  "on_click (plotted\<lparr>df := plain_coins\<rparr>) (pick_first RIGHT) = Inr (plotted\<lparr>df := plain_coins\<rparr>)
   \<and> ''name'' \<notin> fst ` set (df (plotted\<lparr>df := plain_coins\<rparr>))
   \<and> \<not> suppress_next_drag (plotted\<lparr>df := plain_coins\<rparr>)
   \<and> on_click (plotted\<lparr>df := one_coin\<rparr>) (pick_third LEFT) =
       Inl (IndexError, plotted\<lparr>df := one_coin, suppress_next_drag := True\<rparr>)
   \<and> ''name'' \<in> fst ` set (df (plotted\<lparr>df := one_coin\<rparr>))
   \<and> ''obverse_group'' \<in> fst ` set (df (plotted\<lparr>df := one_coin\<rparr>))
   \<and> ''reverse_group'' \<in> fst ` set (df (plotted\<lparr>df := one_coin\<rparr>))"
proof -
  have 1: "on_click (plotted\<lparr>df := plain_coins\<rparr>) (pick_first RIGHT) = Inr (plotted\<lparr>df := plain_coins\<rparr>)"
    by (simp add: on_click_def pick_first_def pointer_def)
  have 2: "''name'' \<notin> fst ` set (df (plotted\<lparr>df := plain_coins\<rparr>))"
    by (simp add: plain_coins_def coins_def)
  have 3: "\<not> suppress_next_drag (plotted\<lparr>df := plain_coins\<rparr>)"
    by (simp add: plotted_def configured_def init_def)
  have 4: "on_click (plotted\<lparr>df := one_coin\<rparr>) (pick_third LEFT) =
       Inl (IndexError, plotted\<lparr>df := one_coin, suppress_next_drag := True\<rparr>)"
    by (simp add: on_click_def iloc_def nrows_def one_coin_def coins_def pick_third_def
        pointer_def half_disc_def Let_def)
  have 5: "''name'' \<in> fst ` set (df (plotted\<lparr>df := one_coin\<rparr>))"
    "''obverse_group'' \<in> fst ` set (df (plotted\<lparr>df := one_coin\<rparr>))"
    "''reverse_group'' \<in> fst ` set (df (plotted\<lparr>df := one_coin\<rparr>))"
    by (simp_all add: one_coin_def coins_def)
  show ?thesis
    using 1 2 3 4 5 by (intro conjI)
qed

subsection \<open>Plotting\<close>

text \<open>
  Claim C6. When one of the four column selectors is empty, \<^verbatim>\<open>plot_coins\<close> returns
  without an error and the state is the one it was called in: no patch is built, and
  the scene, the limits and everything else are unchanged.
\<close>

theorem plot_coins_not_configured:
  assumes "x_column s = [] \<or> y_column s = [] \<or> obv_column s = [] \<or> rev_column s = []"
  shows "plot_coins color_palette autoscale s = Inr s"
  using assms by (auto simp: plot_coins_def)

theorem plot_coins_not_configured_witness:
  "plot_coins sample_palette sample_autoscale (plotted\<lparr>rev_column := []\<rparr>) =
     Inr (plotted\<lparr>rev_column := []\<rparr>)
   \<and> plot_coins sample_palette sample_autoscale init = Inr init"
  using plot_coins_not_configured [of "plotted\<lparr>rev_column := []\<rparr>" sample_palette sample_autoscale]
        plot_coins_not_configured [of init sample_palette sample_autoscale]
  by (simp add: init_def)

text \<open>
  Claim C5. With a palette that has at least as many colours as the column has distinct
  values (in \<^verbatim>\<open>plot_coins\<close> it has exactly as many), the dictionary of colours is
  built without an error, its keys are the values of the column, and each value \<open>v\<close>
  gets the palette colour whose index is the number of distinct values that occur before
  the first occurrence of \<open>v\<close>. So the slots go to the distinct values in the order of
  their first occurrence, a repeated value takes no slot (the number of slots is the
  number of distinct values), and the colour depends on the value only. For the values
  a, b, a and a palette of two colours, the dictionary is \<open>{a: first, b: second}\<close>.
\<close>

theorem color_dict_first_occurrence:
  assumes "card (set vals) \<le> length palette"
  shows "(\<exists>m. color_dict palette (unique vals) = Inr m
           \<and> dom m = set vals
           \<and> (\<forall>v\<in>set vals. m v = Some (palette ! card (set (takeWhile (\<lambda>u. u \<noteq> v) vals)))))
       \<and> length (unique vals) = card (set vals)
       \<and> (a \<noteq> b \<longrightarrow> color_dict [c1, c2] (unique [a, b, a]) = Inr [a \<mapsto> c1, b \<mapsto> c2])"
proof -
  have ex: "a \<noteq> b \<longrightarrow> color_dict [c1, c2] (unique [a, b, a]) = Inr [a \<mapsto> c1, b \<mapsto> c2]"
    by (simp add: color_dict_def unique_def)
  show ?thesis
    using color_dict_unique [OF assms] length_unique [of vals] ex by blast
qed

text \<open>The values A, B, A with the palette red, blue.\<close>

theorem color_dict_first_occurrence_witness:
  "card (set [Text ''A'', Text ''B'', Text ''A'']) \<le> length [red, blue]
   \<and> color_dict [red, blue] (unique [Text ''A'', Text ''B'', Text ''A'']) =
       Inr [Text ''A'' \<mapsto> red, Text ''B'' \<mapsto> blue]
   \<and> length (unique [Text ''A'', Text ''B'', Text ''A'']) = 2"
proof -
  have c: "card (set [Text ''A'', Text ''B'', Text ''A'']) \<le> length [red, blue]"
    by (simp add: card_insert_if)
  have ne: "Text ''A'' \<noteq> Text ''B''"
    by simp
  have two: "card (set [Text ''A'', Text ''B'', Text ''A'']) = 2"
    by (simp add: card_insert_if)
  show ?thesis
    using color_dict_first_occurrence [OF c, of "Text ''A''" "Text ''B''" red blue] c ne two by simp
qed



end
